theory Spec2Isabelle
  imports Complex_Main "HOL-Library.Sublist"
begin

section \<open>Data model of \<^verbatim>\<open>src/App.js\<close>\<close>

text \<open>
  A JavaScript string is modelled as a \<open>string\<close> (a list of code units, here the code
  units below 256).  The values produced by \<^verbatim>\<open>JSON.parse\<close> are the type \<open>json\<close>; the
  JavaScript value \<^verbatim>\<open>null\<close> is \<open>JNull\<close>, and \<^verbatim>\<open>undefined\<close>, which is not a JSON value, is
  \<open>None\<close> of \<open>json option\<close>.  An object is the list of its own properties, each key
  once.  A number is given by its value; the code tests numbers only for being zero and
  for being positive.
\<close>

datatype json =
    JNull
  | JBool bool
  | JNum rat
  | JStr string
  | JArr "json list"
  | JObj "(string \<times> json) list"

text \<open>The three column names of line 387: \<^verbatim>\<open>['todo', 'in-progress', 'done']\<close>.\<close>

datatype status = Todo | InProgress | Done

text \<open>
  The task object literal of line 34.  \<open>id'\<close> is the number read from \<^verbatim>\<open>Date.now()\<close>, an
  integer number of milliseconds; \<open>aiAnalysis\<close> and \<open>aiSubTasks\<close> start as \<^verbatim>\<open>null\<close>.
\<close>

record task =
  id' :: int
  text' :: string
  completed :: bool
  status :: status
  aiAnalysis :: json
  aiSubTasks :: json
  isSubTasksVisible :: bool

text \<open>
  The variables of lines 12 to 15 that the handlers read and write.  \<open>newTaskText\<close> is \<open>None\<close> when the variable holds \<^verbatim>\<open>undefined\<close>.
\<close>

record app =
  tasks :: "task list"
  newTaskText :: "string option"
  aiLoadingTaskId :: "int option"
  breakdownLoadingTaskId :: "int option"

text \<open>
  A thrown value.  \<open>Thrown m\<close> is an \<^verbatim>\<open>Error\<close> object whose \<^verbatim>\<open>message\<close> is \<open>m\<close>;
  \<open>CannotRead v k\<close> is the \<^verbatim>\<open>TypeError\<close> of reading property \<open>k\<close> of \<open>v\<close>, where \<open>v\<close> is
  \<^verbatim>\<open>null\<close> or \<^verbatim>\<open>undefined\<close>.
\<close>

datatype js_error =
    Thrown string
  | CannotRead "json option" string

section \<open>Strings\<close>

text \<open>
  \<^verbatim>\<open>String.prototype.trim\<close> strips white space and line terminators from both ends.  Of
  the code units below 256 these are TAB, LF, VT, FF, CR, SP and NBSP.
\<close>

definition is_ws :: "char \<Rightarrow> bool" where
  "is_ws c \<longleftrightarrow> c \<in> {CHR 0x09, CHR 0x0A, CHR 0x0B, CHR 0x0C, CHR 0x0D, CHR 0x20, CHR 0xA0}"

definition trim :: "string \<Rightarrow> string" where
  "trim s = rev (dropWhile is_ws (rev (dropWhile is_ws s)))"

text \<open>
  Numbers and strings meet in two places: the task id is written into the drag data as a
  string (line 65) and read back with \<^verbatim>\<open>parseInt\<close> (line 73), and the response status is
  spliced into an error message (lines 125 and 188).  Task ids are readings of
  \<^verbatim>\<open>Date.now()\<close>, integers of magnitude at most 8.64e15; on that range a number is an exact
  integer and its string is its decimal numeral, so numbers are modelled by \<open>int\<close> and
  \<open>nat\<close>.  \<open>None\<close> is \<^verbatim>\<open>NaN\<close>.
\<close>

definition digit_char :: "nat \<Rightarrow> char" where
  "digit_char d = ''0123456789'' ! d"

fun digits :: "nat \<Rightarrow> string" where
  "digits n = (if n < 10 then [digit_char n] else digits (n div 10) @ [digit_char (n mod 10)])"

declare digits.simps [simp del]

definition number_to_string :: "int \<Rightarrow> string" where
  "number_to_string n = (if n < 0 then CHR ''-'' # digits (nat (- n)) else digits (nat n))"

text \<open>The value of a character as a digit in radixes up to 36; 36 when it is none.\<close>

definition digit_value :: "char \<Rightarrow> nat" where
  "digit_value c =
     (let n = (of_char c :: nat) in
      if 48 \<le> n \<and> n \<le> 57 then n - 48
      else if 97 \<le> n \<and> n \<le> 122 then n - 87
      else if 65 \<le> n \<and> n \<le> 90 then n - 55
      else 36)"

text \<open>
  \<^verbatim>\<open>parseInt(string)\<close> with no radix argument: skip leading white space, read a sign, take
  the prefix \<^verbatim>\<open>0x\<close> or \<^verbatim>\<open>0X\<close> as radix 16 and radix 10 otherwise, and read digits up to
  the first character that is not one.  No digit gives \<^verbatim>\<open>NaN\<close>.
\<close>

definition parseInt :: "string \<Rightarrow> int option" where
  "parseInt inputString =
     (let S = dropWhile is_ws inputString;
          sign = (if take 1 S = ''-'' then - 1 else (1::int));
          S1 = (if take 1 S = ''+'' \<or> take 1 S = ''-'' then drop 1 S else S);
          R = (if take 2 S1 = ''0x'' \<or> take 2 S1 = ''0X'' then 16 else (10::nat));
          S2 = (if R = 16 then drop 2 S1 else S1);
          Z = takeWhile (\<lambda>c. digit_value c < R) S2
      in if Z = [] then None
         else Some (sign * int (foldl (\<lambda>a c. a * R + digit_value c) 0 Z)))"

section \<open>The task store\<close>

text \<open>
  \<^verbatim>\<open>addTask\<close> (lines 30 to 37).  It reads \<^verbatim>\<open>newTaskText\<close> and \<^verbatim>\<open>tasks\<close> from the component
  state; \<open>now\<close> is the value returned by \<^verbatim>\<open>Date.now()\<close>.  Calling \<^verbatim>\<open>.trim()\<close> on
  \<^verbatim>\<open>undefined\<close> throws.
\<close>

definition addTask :: "int \<Rightarrow> app \<Rightarrow> js_error + app" where
  "addTask now s =
     (case newTaskText s of
        None \<Rightarrow> Inl (CannotRead None ''trim'')
      | Some txt \<Rightarrow>
          if trim txt \<noteq> '''' then
            let newId = now in
            Inr (s\<lparr>tasks := tasks s @
                     [\<lparr>id' = newId, text' = txt, completed = False, status = Todo,
                       aiAnalysis = JNull, aiSubTasks = JNull, isSubTasksVisible = False\<rparr>],
                   newTaskText := Some ''''\<rparr>)
          else Inr s)"

text \<open>\<^verbatim>\<open>toggleComplete\<close> (lines 40 to 49).\<close>

definition toggleComplete :: "int \<Rightarrow> app \<Rightarrow> app" where
  "toggleComplete i s =
     s\<lparr>tasks := map (\<lambda>task.
          if id' task = i then
            let newStatus = (if \<not> completed task then Done else Todo) in
            task\<lparr>completed := \<not> completed task, status := newStatus\<rparr>
          else task) (tasks s)\<rparr>"

text \<open>\<^verbatim>\<open>toggleSubTasksVisibility\<close> (lines 52 to 56).\<close>

definition toggleSubTasksVisibility :: "int \<Rightarrow> app \<Rightarrow> app" where
  "toggleSubTasksVisibility i s =
     s\<lparr>tasks := map (\<lambda>task.
          if id' task = i then task\<lparr>isSubTasksVisible := \<not> isSubTasksVisible task\<rparr>
          else task) (tasks s)\<rparr>"

text \<open>\<^verbatim>\<open>deleteTask\<close> (lines 59 to 61).\<close>

definition deleteTask :: "int \<Rightarrow> app \<Rightarrow> app" where
  "deleteTask i s = s\<lparr>tasks := filter (\<lambda>task. id' task \<noteq> i) (tasks s)\<rparr>"

text \<open>
  The drag handlers (lines 64 to 82).  \<^verbatim>\<open>handleDragStart\<close> stores the task id in the drag
  data, which holds strings; \<open>handleDrop data newStatus\<close> is the drop handler when
  \<^verbatim>\<open>e.dataTransfer.getData('taskId')\<close> returns \<open>data\<close> (the empty string when the dragged
  thing was no task card).  \<^verbatim>\<open>===\<close> against \<^verbatim>\<open>NaN\<close> is false.
\<close>

definition handleDragStart :: "int \<Rightarrow> string" where
  "handleDragStart taskId = number_to_string taskId"

definition handleDrop :: "string \<Rightarrow> status \<Rightarrow> app \<Rightarrow> app" where
  "handleDrop data newStatus s =
     (let taskId = parseInt data in
      s\<lparr>tasks := map (\<lambda>task.
          if Some (id' task) = taskId then
            let newCompleted = (if newStatus = Done then True else False) in
            task\<lparr>status := newStatus, completed := newCompleted\<rparr>
          else task) (tasks s)\<rparr>)"

text \<open>
  The two write-backs of the AI workflows, as expressions over the task list they are
  applied to: \<^verbatim>\<open>tasks.map(task => task.id === taskId ? { ...task, aiAnalysis: a } : task)\<close>
  (lines 136, 141 and 147) and the same with
  \<^verbatim>\<open>{ ...task, aiSubTasks: l, isSubTasksVisible: true }\<close> (lines 199, 204 and 210).
\<close>

definition setAnalysis :: "int \<Rightarrow> json \<Rightarrow> task list \<Rightarrow> task list" where
  "setAnalysis taskId a ts =
     map (\<lambda>task. if id' task = taskId then task\<lparr>aiAnalysis := a\<rparr> else task) ts"

definition setSubTasks :: "int \<Rightarrow> json \<Rightarrow> task list \<Rightarrow> task list" where
  "setSubTasks taskId l ts =
     map (\<lambda>task. if id' task = taskId then task\<lparr>aiSubTasks := l, isSubTasksVisible := True\<rparr>
                 else task) ts"

section \<open>Reading the response\<close>

text \<open>
  What the code reads from the parsed response body: a named property (\<^verbatim>\<open>v.candidates\<close>,
  \<^verbatim>\<open>v.content\<close>, \<^verbatim>\<open>v.parts\<close>, \<^verbatim>\<open>v.text\<close>), \<^verbatim>\<open>v.length\<close> and \<^verbatim>\<open>v[0]\<close>.  Reading any
  property of \<^verbatim>\<open>null\<close> or \<^verbatim>\<open>undefined\<close> throws; a property that is not there reads as
  \<^verbatim>\<open>undefined\<close>.  Arrays and strings have a length and elements, and none of the four
  named properties; numbers and booleans have none of them.
\<close>

fun get_named :: "string \<Rightarrow> json option \<Rightarrow> js_error + json option" where
  "get_named k None = Inl (CannotRead None k)"
| "get_named k (Some JNull) = Inl (CannotRead (Some JNull) k)"
| "get_named k (Some (JObj kvs)) = Inr (map_of kvs k)"
| "get_named k (Some v) = Inr None"

fun get_length :: "json option \<Rightarrow> js_error + json option" where
  "get_length None = Inl (CannotRead None ''length'')"
| "get_length (Some JNull) = Inl (CannotRead (Some JNull) ''length'')"
| "get_length (Some (JObj kvs)) = Inr (map_of kvs ''length'')"
| "get_length (Some (JArr xs)) = Inr (Some (JNum (of_nat (length xs))))"
| "get_length (Some (JStr cs)) = Inr (Some (JNum (of_nat (length cs))))"
| "get_length (Some v) = Inr None"

fun get_index0 :: "json option \<Rightarrow> js_error + json option" where
  "get_index0 None = Inl (CannotRead None ''0'')"
| "get_index0 (Some JNull) = Inl (CannotRead (Some JNull) ''0'')"
| "get_index0 (Some (JObj kvs)) = Inr (map_of kvs ''0'')"
| "get_index0 (Some (JArr xs)) = Inr (case xs of [] \<Rightarrow> None | x # _ \<Rightarrow> Some x)"
| "get_index0 (Some (JStr cs)) = Inr (case cs of [] \<Rightarrow> None | c # _ \<Rightarrow> Some (JStr [c]))"
| "get_index0 (Some v) = Inr None"

text \<open>Truthiness, as \<^verbatim>\<open>&&\<close> tests it.\<close>

fun truthy :: "json option \<Rightarrow> bool" where
  "truthy None = False"
| "truthy (Some JNull) = False"
| "truthy (Some (JBool b)) = b"
| "truthy (Some (JNum r)) = (r \<noteq> 0)"
| "truthy (Some (JStr cs)) = (cs \<noteq> [])"
| "truthy (Some (JArr xs)) = True"
| "truthy (Some (JObj kvs)) = True"

text \<open>
  The built-ins of the JavaScript engine that the workflows call and that are not part
  of the repository are parameters of the model:
  \<^item> \<open>JSON_parse v\<close> is \<^verbatim>\<open>JSON.parse(v)\<close>: the parsed value, or the error thrown;
  \<^item> \<open>gt_zero v\<close> is \<^verbatim>\<open>v > 0\<close> for a string, array or object \<open>v\<close>, which converts \<open>v\<close>
    to a number first and can throw;
  \<^item> \<open>read_message v k\<close> is the message of the \<^verbatim>\<open>TypeError\<close> of reading property \<open>k\<close> of
    \<open>v\<close>.
\<close>

record runtime =
  JSON_parse :: "json option \<Rightarrow> js_error + json"
  gt_zero :: "json \<Rightarrow> js_error + bool"
  read_message :: "json option \<Rightarrow> string \<Rightarrow> string"

fun message :: "runtime \<Rightarrow> js_error \<Rightarrow> string" where
  "message rt (Thrown m) = m"
| "message rt (CannotRead v k) = read_message rt v k"

text \<open>\<^verbatim>\<open>v > 0\<close>: \<^verbatim>\<open>undefined\<close> converts to \<^verbatim>\<open>NaN\<close>, \<^verbatim>\<open>null\<close> to 0, \<^verbatim>\<open>true\<close> to 1.\<close>

fun gt0 :: "runtime \<Rightarrow> json option \<Rightarrow> js_error + bool" where
  "gt0 rt None = Inr False"
| "gt0 rt (Some JNull) = Inr False"
| "gt0 rt (Some (JBool b)) = Inr b"
| "gt0 rt (Some (JNum r)) = Inr (0 < r)"
| "gt0 rt (Some v) = gt_zero rt v"

text \<open>Sequencing of steps that may throw.\<close>

definition and_then :: "'e + 'a \<Rightarrow> ('a \<Rightarrow> 'e + 'b) \<Rightarrow> 'e + 'b" where
  "and_then m f = (case m of Inl e \<Rightarrow> Inl e | Inr x \<Rightarrow> f x)"

text \<open>
  The condition of lines 130 to 132 (and 193 to 195), with the short circuit of \<^verbatim>\<open>&&\<close>:
  \<^verbatim>\<open>result.candidates && result.candidates.length > 0 && result.candidates[0].content &&
  result.candidates[0].content.parts && result.candidates[0].content.parts.length > 0\<close>.
\<close>

definition content_present :: "runtime \<Rightarrow> json \<Rightarrow> js_error + bool" where
  "content_present rt result =
     and_then (get_named ''candidates'' (Some result)) (\<lambda>candidates.
     if \<not> truthy candidates then Inr False else
     and_then (get_length candidates) (\<lambda>n.
     and_then (gt0 rt n) (\<lambda>positive.
     if \<not> positive then Inr False else
     and_then (get_index0 candidates) (\<lambda>first.
     and_then (get_named ''content'' first) (\<lambda>content.
     if \<not> truthy content then Inr False else
     and_then (get_named ''parts'' content) (\<lambda>parts.
     if \<not> truthy parts then Inr False else
     and_then (get_length parts) (\<lambda>m. gt0 rt m)))))))"

text \<open>Lines 133 and 196: \<^verbatim>\<open>result.candidates[0].content.parts[0].text\<close>.\<close>

definition candidate_text :: "json \<Rightarrow> js_error + json option" where
  "candidate_text result =
     and_then (get_named ''candidates'' (Some result)) (\<lambda>candidates.
     and_then (get_index0 candidates) (\<lambda>first.
     and_then (get_named ''content'' first) (\<lambda>content.
     and_then (get_named ''parts'' content) (\<lambda>parts.
     and_then (get_index0 parts) (\<lambda>part.
     get_named ''text'' part)))))"

text \<open>
  What \<^verbatim>\<open>await fetch(...)\<close> gives: a rejection, or a response with its \<^verbatim>\<open>ok\<close> flag, its
  \<^verbatim>\<open>status\<close> and what \<^verbatim>\<open>await response.json()\<close> gives on it.
\<close>

record response =
  ok :: bool
  status' :: nat
  json_result :: "js_error + json"

datatype fetched = Rejected js_error | Resolved response

text \<open>
  The body of the \<^verbatim>\<open>try\<close> block from the \<^verbatim>\<open>fetch\<close> on, up to the choice of the branch
  (lines 118 to 134; lines 181 to 197 are the same text).  \<open>Inl e\<close>: \<open>e\<close> is thrown and the
  \<^verbatim>\<open>catch\<close> block runs.  \<open>Inr (Some v)\<close>: the \<^verbatim>\<open>if\<close> branch runs with the parsed payload \<open>v\<close>.
  \<open>Inr None\<close>: the \<^verbatim>\<open>else\<close> branch runs.
\<close>

definition attempt :: "runtime \<Rightarrow> fetched \<Rightarrow> js_error + json option" where
  "attempt rt f =
     (case f of
        Rejected e \<Rightarrow> Inl e
      | Resolved response \<Rightarrow>
          if \<not> ok response then
            Inl (Thrown (''HTTP error! status: '' @ digits (status' response)))
          else
            and_then (json_result response) (\<lambda>result.
            and_then (content_present rt result) (\<lambda>present.
            if present then
              and_then (candidate_text result) (\<lambda>jsonString.
              and_then (JSON_parse rt jsonString) (\<lambda>parsed. Inr (Some parsed)))
            else Inr None)))"

section \<open>The AI workflows\<close>

definition error_analysis :: "string \<Rightarrow> json" where
  "error_analysis notes =
     JObj [(''category'', JStr ''Error''), (''priority'', JStr ''Error''), (''notes'', JStr notes)]"

text \<open>
  \<^verbatim>\<open>analyzeTaskWithAI\<close> (lines 85 to 153) runs in two parts.  Up to the \<^verbatim>\<open>await\<close> of line 118
  it sets the loading marker and sends the request.  When the request settles, the rest
  runs: one of the three \<^verbatim>\<open>setTasks\<close> calls, then the \<^verbatim>\<open>finally\<close> block.  The \<^verbatim>\<open>tasks\<close> in
  those calls is the variable of the render in which the function was called, so the
  second part takes that list, \<open>captured\<close>, beside the state it updates.  The argument
  \<^verbatim>\<open>taskText\<close> goes into the prompt of the request and nowhere else.
\<close>

definition analyzeTaskWithAI_start :: "int \<Rightarrow> app \<Rightarrow> app" where
  "analyzeTaskWithAI_start taskId s = s\<lparr>aiLoadingTaskId := Some taskId\<rparr>"

definition analysis_result :: "runtime \<Rightarrow> fetched \<Rightarrow> json" where
  "analysis_result rt f =
     (case attempt rt f of
        Inr (Some parsed) \<Rightarrow> parsed
      | Inr None \<Rightarrow> error_analysis ''Could not analyze''
      | Inl error \<Rightarrow> error_analysis (''Analysis failed: '' @ message rt error))"

definition analyzeTaskWithAI_settle :: "runtime \<Rightarrow> task list \<Rightarrow> int \<Rightarrow> fetched \<Rightarrow> app \<Rightarrow> app" where
  "analyzeTaskWithAI_settle rt captured taskId f s =
     s\<lparr>tasks := setAnalysis taskId (analysis_result rt f) captured,
       aiLoadingTaskId := None\<rparr>"

text \<open>\<^verbatim>\<open>breakdownTaskWithAI\<close> (lines 156 to 216), in the same two parts.\<close>

definition breakdownTaskWithAI_start :: "int \<Rightarrow> app \<Rightarrow> app" where
  "breakdownTaskWithAI_start taskId s = s\<lparr>breakdownLoadingTaskId := Some taskId\<rparr>"

definition breakdown_result :: "runtime \<Rightarrow> fetched \<Rightarrow> json" where
  "breakdown_result rt f =
     (case attempt rt f of
        Inr (Some parsed) \<Rightarrow> parsed
      | Inr None \<Rightarrow> JArr [JStr ''Could not break down task.'']
      | Inl error \<Rightarrow> JArr [JStr (''Breakdown failed: '' @ message rt error)])"

definition breakdownTaskWithAI_settle :: "runtime \<Rightarrow> task list \<Rightarrow> int \<Rightarrow> fetched \<Rightarrow> app \<Rightarrow> app" where
  "breakdownTaskWithAI_settle rt captured taskId f s =
     s\<lparr>tasks := setSubTasks taskId (breakdown_result rt f) captured,
       breakdownLoadingTaskId := None\<rparr>"

section \<open>The board\<close>

text \<open>
  Lines 387 to 404: for each of the three statuses, the tasks of that status and their
  number.
\<close>

definition column :: "status \<Rightarrow> task list \<Rightarrow> task list" where
  "column st ts = filter (\<lambda>task. status task = st) ts"

definition board :: "task list \<Rightarrow> (status \<times> nat \<times> task list) list" where
  "board ts = map (\<lambda>st. (st, length (filter (\<lambda>task. status task = st) ts), column st ts))
                  [Todo, InProgress, Done]"

section \<open>Runs of the component\<close>

text \<open>
  Line 13, \<^verbatim>\<open>const [newTaskText, setNewTaskText] = ''\<close>, destructures the empty string, which
  has no elements: in every render \<^verbatim>\<open>newTaskText\<close> and \<^verbatim>\<open>setNewTaskText\<close> are
  \<^verbatim>\<open>undefined\<close>.  The \<^verbatim>\<open>onChange\<close> handler of the input (line 370),
  \<^verbatim>\<open>setNewTaskText(e.target.value)\<close>, therefore calls \<^verbatim>\<open>undefined\<close>, which throws a
  \<^verbatim>\<open>TypeError\<close> (its message is the engine's and nothing reads it); no state changes.
\<close>

definition handleChange :: "string \<Rightarrow> app \<Rightarrow> js_error + app" where
  "handleChange v s = Inl (Thrown ''setNewTaskText is not a function'')"

text \<open>
  The things that happen to the component, one at a time: a handler is called from the
  current render, or a request that is in flight settles.  A handler that throws leaves
  the state as it was.  \<open>Change v\<close> is the input event with the text \<open>v\<close> in the field;
  \<open>AddTask now\<close> is \<^verbatim>\<open>addTask\<close> called (by the button or the Enter key) while the clock
  reads \<open>now\<close>; \<open>Drop data st\<close> is a drop on the column \<open>st\<close> with drag data \<open>data\<close>;
  \<open>Settled k f\<close> is the request at position \<open>k\<close> of those in flight settling with \<open>f\<close>.  A
  request in flight remembers which workflow sent it, for which task id, and the
  \<^verbatim>\<open>tasks\<close> of the render that sent it.
\<close>

datatype workflow = Analysis | Breakdown

datatype request = Request workflow int "task list"

datatype event =
    Change string
  | AddTask int
  | ToggleComplete int
  | ToggleSubTasksVisibility int
  | DeleteTask int
  | Drop string status
  | AnalyzeTaskWithAI int
  | BreakdownTaskWithAI int
  | Settled nat fetched

fun settle :: "runtime \<Rightarrow> request \<Rightarrow> fetched \<Rightarrow> app \<Rightarrow> app" where
  "settle rt (Request Analysis taskId captured) f s = analyzeTaskWithAI_settle rt captured taskId f s"
| "settle rt (Request Breakdown taskId captured) f s = breakdownTaskWithAI_settle rt captured taskId f s"

fun step :: "runtime \<Rightarrow> app \<times> request list \<Rightarrow> event \<Rightarrow> app \<times> request list" where
  "step rt (s, rs) (Change v) =
     (case handleChange v s of Inl e \<Rightarrow> (s, rs) | Inr s' \<Rightarrow> (s', rs))"
| "step rt (s, rs) (AddTask now) =
     (case addTask now s of Inl e \<Rightarrow> (s, rs) | Inr s' \<Rightarrow> (s', rs))"
| "step rt (s, rs) (ToggleComplete i) = (toggleComplete i s, rs)"
| "step rt (s, rs) (ToggleSubTasksVisibility i) = (toggleSubTasksVisibility i s, rs)"
| "step rt (s, rs) (DeleteTask i) = (deleteTask i s, rs)"
| "step rt (s, rs) (Drop data st) = (handleDrop data st s, rs)"
| "step rt (s, rs) (AnalyzeTaskWithAI i) =
     (analyzeTaskWithAI_start i s, rs @ [Request Analysis i (tasks s)])"
| "step rt (s, rs) (BreakdownTaskWithAI i) =
     (breakdownTaskWithAI_start i s, rs @ [Request Breakdown i (tasks s)])"
| "step rt (s, rs) (Settled k f) =
     (if k < length rs then (settle rt (rs ! k) f s, take k rs @ drop (Suc k) rs) else (s, rs))"

definition run :: "runtime \<Rightarrow> event list \<Rightarrow> app \<times> request list \<Rightarrow> app \<times> request list" where
  "run rt evs c = foldl (step rt) c evs"

text \<open>
  The first render: \<^verbatim>\<open>tasks\<close> is empty (line 12), no request is in flight, both loading
  markers are \<^verbatim>\<open>null\<close> and \<^verbatim>\<open>newTaskText\<close> is \<^verbatim>\<open>undefined\<close>.
\<close>

definition initial :: "app \<times> request list" where
  "initial = (\<lparr>tasks = [], newTaskText = None, aiLoadingTaskId = None,
               breakdownLoadingTaskId = None\<rparr>, [])"

text \<open>
  What holds of every configuration the component reaches: there is no task, in the
  state or remembered by a request, and \<^verbatim>\<open>newTaskText\<close> is \<^verbatim>\<open>undefined\<close>.
\<close>

fun never_added :: "app \<times> request list \<Rightarrow> bool" where
  "never_added (s, rs) \<longleftrightarrow>
     tasks s = [] \<and> newTaskText s = None \<and>
     list_all (\<lambda>r. case r of Request w i captured \<Rightarrow> captured = []) rs"

text \<open>The invariant of the data model: a task is completed exactly when it is done.\<close>

definition consistent :: "task list \<Rightarrow> bool" where
  "consistent ts = list_all (\<lambda>task. completed task \<longleftrightarrow> status task = Done) ts"

text \<open>
  The same for a run: the current tasks and the tasks remembered by every request in
  flight.
\<close>

fun config_consistent :: "app \<times> request list \<Rightarrow> bool" where
  "config_consistent (s, rs) \<longleftrightarrow>
     consistent (tasks s) \<and> list_all (\<lambda>r. case r of Request w i captured \<Rightarrow> consistent captured) rs"

text \<open>
  The board column in the words of the specification: the tasks at the positions, in
  increasing order, whose task has the status.
\<close>

definition matching_subsequence :: "status \<Rightarrow> task list \<Rightarrow> task list" where
  "matching_subsequence st ts =
     map (\<lambda>k. ts ! k) (filter (\<lambda>k. status (ts ! k) = st) [0..<length ts])"

section \<open>Properties of the string functions\<close>

lemma trim_blank_iff: "trim txt = [] \<longleftrightarrow> (\<forall>c \<in> set txt. is_ws c)"
proof
  assume "trim txt = []"
  then have all: "\<forall>x \<in> set (dropWhile is_ws txt). is_ws x"
    by (simp add: trim_def dropWhile_eq_Nil_conv)
  have "dropWhile is_ws txt = []"
  proof (rule ccontr)
    assume ne: "dropWhile is_ws txt \<noteq> []"
    then have "\<not> is_ws (hd (dropWhile is_ws txt))" by (rule hd_dropWhile)
    moreover have "hd (dropWhile is_ws txt) \<in> set (dropWhile is_ws txt)" using ne by simp
    ultimately show False using all by blast
  qed
  then show "\<forall>c \<in> set txt. is_ws c" by (simp add: dropWhile_eq_Nil_conv)
next
  assume "\<forall>c \<in> set txt. is_ws c"
  then have d: "dropWhile is_ws txt = []" by (simp add: dropWhile_eq_Nil_conv)
  show "trim txt = []" unfolding trim_def d by simp
qed

lemma digit_value_digit_char: "d < 10 \<Longrightarrow> digit_value (digit_char d) = d"
proof -
  assume "d < 10"
  then have "d \<in> {0, 1, 2, 3, 4, 5, 6, 7, 8, 9}" by auto
  then show ?thesis
    by (auto simp: digit_char_def digit_value_def)
qed

lemma digits_are_decimal: "c \<in> set (digits n) \<Longrightarrow> digit_value c < 10"
proof (induction n rule: digits.induct)
  case (1 n)
  show ?case
  proof (cases "n < 10")
    case True
    with "1.prems" show ?thesis
      by (simp add: digits.simps [of n] digit_value_digit_char)
  next
    case False
    with "1.prems" "1.IH" show ?thesis
      by (auto simp: digits.simps [of n] digit_value_digit_char)
  qed
qed

lemma digits_nonempty: "digits n \<noteq> []"
  by (simp add: digits.simps [of n])

lemma foldl_digits: "foldl (\<lambda>a c. a * 10 + digit_value c) 0 (digits n) = n"
proof (induction n rule: digits.induct)
  case (1 n)
  show ?case
  proof (cases "n < 10")
    case True
    then show ?thesis
      by (simp add: digits.simps [of n] digit_value_digit_char)
  next
    case False
    with "1.IH" show ?thesis
      by (simp add: digits.simps [of n] digit_value_digit_char)
  qed
qed

lemma digit_value_ws: "is_ws c \<Longrightarrow> digit_value c = 36"
  by (auto simp: is_ws_def digit_value_def)

lemma digits_no_hex_prefix: "take 2 (digits n) \<noteq> ''0x'' \<and> take 2 (digits n) \<noteq> ''0X''"
proof -
  have second: "digit_value y < 10" if "take 2 (digits n) = [CHR ''0'', y]" for y
  proof -
    from that have "y \<in> set (take 2 (digits n))" by simp
    then have "y \<in> set (digits n)" by (rule in_set_takeD)
    then show ?thesis by (rule digits_are_decimal)
  qed
  show ?thesis
    using second [of "CHR ''x''"] second [of "CHR ''X''"] by (auto simp: digit_value_def)
qed

lemma takeWhile_digits: "takeWhile (\<lambda>c. digit_value c < 10) (digits n) = digits n"
  using digits_are_decimal by (simp add: takeWhile_eq_all_conv)

lemma parseInt_digits: "parseInt (digits n) = Some (int n)"
proof -
  obtain c cs where cs: "digits n = c # cs"
    using digits_nonempty [of n] by (cases "digits n") auto
  have c: "digit_value c < 10"
    using digits_are_decimal [of c n] cs by simp
  have nws: "\<not> is_ws c" using c digit_value_ws [of c] by auto
  have nsign: "c \<noteq> CHR ''-''" "c \<noteq> CHR ''+''"
    using c by (auto simp: digit_value_def)
  have dw: "dropWhile is_ws (digits n) = digits n"
    using nws cs by simp
  have t1: "take 1 (digits n) = [c]" using cs by simp
  show ?thesis
    unfolding parseInt_def Let_def dw
    using nsign digits_no_hex_prefix [of n] t1 digits_nonempty [of n] foldl_digits [of n]
    by (simp add: takeWhile_digits del: takeWhile_eq_all_conv)
qed

text \<open>Reading back the drag data gives the id that was stored.\<close>

lemma parseInt_number_to_string: "parseInt (number_to_string n) = Some n"
proof (cases "n < 0")
  case False
  then show ?thesis by (simp add: number_to_string_def parseInt_digits)
next
  case True
  have nws: "\<not> is_ws CHR ''-''" by (simp add: is_ws_def)
  show ?thesis
    unfolding parseInt_def Let_def number_to_string_def
    using True nws digits_no_hex_prefix [of "nat (- n)"] digits_nonempty [of "nat (- n)"]
      foldl_digits [of "nat (- n)"]
    by (simp add: takeWhile_digits del: takeWhile_eq_all_conv)
qed

section \<open>The component as written\<close>

text \<open>
  No step adds a task or gives \<^verbatim>\<open>newTaskText\<close> a value: the input handler and \<^verbatim>\<open>addTask\<close>
  throw, and the other handlers and the write-backs map or filter lists that are empty.
\<close>

lemma handleChange_throws: "handleChange v s = Inl (Thrown ''setNewTaskText is not a function'')"
  by (simp add: handleChange_def)

lemma addTask_undefined_throws:
  "newTaskText s = None \<Longrightarrow> addTask now s = Inl (CannotRead None ''trim'')"
  by (simp add: addTask_def)

lemma settle_never_added:
  assumes "tasks s = []" and "newTaskText s = None"
    and "case r of Request w i captured \<Rightarrow> captured = []"
  shows "tasks (settle rt r f s) = [] \<and> newTaskText (settle rt r f s) = None"
proof (cases r)
  case (Request w i captured)
  with assms(3) have "captured = []" by simp
  with Request assms(2) show ?thesis
    by (cases w)
      (simp_all add: analyzeTaskWithAI_settle_def breakdownTaskWithAI_settle_def
        setAnalysis_def setSubTasks_def)
qed

lemma step_never_added: "never_added c \<Longrightarrow> never_added (step rt c ev)"
proof -
  assume c: "never_added c"
  obtain s rs where sr: "c = (s, rs)" by (cases c)
  from c sr have s: "tasks s = []" and n: "newTaskText s = None"
    and rs: "list_all (\<lambda>r. case r of Request w i captured \<Rightarrow> captured = []) rs"
    by simp_all
  show ?thesis
  proof (cases ev)
    case (Change v)
    with sr s n rs show ?thesis by (simp add: handleChange_def)
  next
    case (AddTask now)
    with sr s n rs show ?thesis by (simp add: addTask_undefined_throws)
  next
    case (ToggleComplete i)
    with sr s n rs show ?thesis by (simp add: toggleComplete_def)
  next
    case (ToggleSubTasksVisibility i)
    with sr s n rs show ?thesis by (simp add: toggleSubTasksVisibility_def)
  next
    case (DeleteTask i)
    with sr s n rs show ?thesis by (simp add: deleteTask_def)
  next
    case (Drop data st)
    with sr s n rs show ?thesis by (simp add: handleDrop_def)
  next
    case (AnalyzeTaskWithAI i)
    with sr s n rs show ?thesis by (simp add: analyzeTaskWithAI_start_def)
  next
    case (BreakdownTaskWithAI i)
    with sr s n rs show ?thesis by (simp add: breakdownTaskWithAI_start_def)
  next
    case (Settled k f)
    show ?thesis
    proof (cases "k < length rs")
      case False
      with Settled sr s n rs show ?thesis by simp
    next
      case True
      with rs have "case rs ! k of Request w i captured \<Rightarrow> captured = []"
        by (simp add: list_all_length)
      with s n have "tasks (settle rt (rs ! k) f s) = [] \<and>
          newTaskText (settle rt (rs ! k) f s) = None"
        by (rule settle_never_added)
      moreover have "list_all (\<lambda>r. case r of Request w i captured \<Rightarrow> captured = [])
          (take k rs @ drop (Suc k) rs)"
        using rs by (auto simp: list_all_iff dest: in_set_takeD in_set_dropD)
      ultimately show ?thesis using Settled sr True by simp
    qed
  qed
qed

lemma run_never_added: "never_added c \<Longrightarrow> never_added (run rt evs c)"
  unfolding run_def by (induction evs arbitrary: c) (simp_all add: step_never_added)

lemma reachable_never_added:
  "tasks (fst (run rt evs initial)) = [] \<and> newTaskText (fst (run rt evs initial)) = None"
proof -
  have "never_added initial" by (simp add: initial_def)
  then have "never_added (run rt evs initial)" by (rule run_never_added)
  then show ?thesis by (cases "run rt evs initial") simp
qed

section \<open>Adding a task\<close>

lemma addTask_undefined: "addTask now (fst initial) = Inl (CannotRead None ''trim'')"
  by (simp add: addTask_def initial_def)

text \<open>
  What lines 31 to 36 do in a state whose \<^verbatim>\<open>newTaskText\<close> holds a text.  No render of the
  component has such a state (\<open>reachable_never_added\<close>).
\<close>

lemma addTask_on_text:
  assumes "newTaskText s = Some entered"
  shows "addTask now s =
    (if trim entered \<noteq> '''' then
       Inr (s\<lparr>tasks := tasks s @
              [\<lparr>id' = now, text' = entered, completed = False, status = Todo,
                aiAnalysis = JNull, aiSubTasks = JNull, isSubTasksVisible = False\<rparr>],
            newTaskText := Some ''''\<rparr>)
     else Inr s)"
  using assms by (simp add: addTask_def)

text \<open>
  Claim C2.  The text "Buy milk" is not blank.  Typing it throws in the input handler,
  and \<^verbatim>\<open>addTask\<close> then throws at \<^verbatim>\<open>newTaskText.trim()\<close>: after both the component is as it
  was on the first render, with no task.  After any run \<^verbatim>\<open>newTaskText\<close> is \<^verbatim>\<open>undefined\<close>
  and \<^verbatim>\<open>addTask\<close> throws, at every clock reading: no text is ever appended as a task.
\<close>

theorem addTask_appends_nothing:
  "trim ''Buy milk'' \<noteq> '''' \<and>
   handleChange ''Buy milk'' (fst initial) = Inl (Thrown ''setNewTaskText is not a function'') \<and>
   addTask 1730000000000 (fst initial) = Inl (CannotRead None ''trim'') \<and>
   run rt [Change ''Buy milk'', AddTask 1730000000000] initial = initial \<and>
   newTaskText (fst (run rt evs initial)) = None \<and>
   addTask now (fst (run rt evs initial)) = Inl (CannotRead None ''trim'')"
proof -
  have blank: "trim ''Buy milk'' \<noteq> ''''"
    by (simp add: trim_def is_ws_def)
  have change: "handleChange ''Buy milk'' (fst initial) =
      Inl (Thrown ''setNewTaskText is not a function'')"
    by (rule handleChange_throws)
  have add: "addTask 1730000000000 (fst initial) = Inl (CannotRead None ''trim'')"
    by (simp add: addTask_def initial_def)
  have both: "run rt [Change ''Buy milk'', AddTask 1730000000000] initial = initial"
    by (simp add: run_def initial_def handleChange_def addTask_def)
  have never: "newTaskText (fst (run rt evs initial)) = None"
    using reachable_never_added [of rt evs] by simp
  then have throws: "addTask now (fst (run rt evs initial)) = Inl (CannotRead None ''trim'')"
    by (rule addTask_undefined_throws)
  from blank change add both never throws show ?thesis by simp
qed

text \<open>
  Claim C10.  The text " Buy milk ", with its surrounding spaces, is not blank.  After it
  is typed and \<^verbatim>\<open>addTask\<close> is called there is no task, so none whose text is " Buy milk ";
  and no run of the component has a task.
\<close>

theorem entered_text_is_not_stored:
  "trim '' Buy milk '' = ''Buy milk'' \<and>
   tasks (fst (run rt [Change '' Buy milk '', AddTask 1730000000000] initial)) = [] \<and>
   tasks (fst (run rt evs initial)) = []"
proof -
  have "trim '' Buy milk '' = ''Buy milk''"
    by (simp add: trim_def is_ws_def)
  moreover have "tasks (fst (run rt [Change '' Buy milk '', AddTask 1730000000000] initial)) = []"
    by (simp add: run_def initial_def handleChange_def addTask_def)
  moreover have "tasks (fst (run rt evs initial)) = []"
    using reachable_never_added [of rt evs] by simp
  ultimately show ?thesis by simp
qed

section \<open>Completing and moving a task\<close>

text \<open>
  Claim C3.  \<^verbatim>\<open>toggleComplete\<close> keeps the positions of the tasks; at every position that
  holds a task with the given id it flips \<open>completed\<close> and sets the status to done when
  the task becomes completed and to todo when it becomes uncompleted, whatever the status
  was.  The new status is never in-progress.
\<close>

theorem toggleComplete_spec:
  "length (tasks (toggleComplete i s)) = length (tasks s) \<and>
   (\<forall>k < length (tasks s). id' (tasks s ! k) = i \<longrightarrow>
      tasks (toggleComplete i s) ! k =
        (tasks s ! k)\<lparr>completed := \<not> completed (tasks s ! k),
                       status := (if completed (tasks s ! k) then Todo else Done)\<rparr> \<and>
      status (tasks (toggleComplete i s) ! k) \<noteq> InProgress)"
  by (simp add: toggleComplete_def)

theorem toggleComplete_spec_witness:
  "(let t = \<lparr>id' = 7, text' = ''Buy milk'', completed = True, status = InProgress,
             aiAnalysis = JNull, aiSubTasks = JNull, isSubTasksVisible = False\<rparr>;
        s = \<lparr>tasks = [t], newTaskText = Some '''', aiLoadingTaskId = None,
             breakdownLoadingTaskId = None\<rparr>
    in (0::nat) < length (tasks s) \<and> id' (tasks s ! 0) = 7 \<and>
       tasks (toggleComplete 7 s) ! 0 = t\<lparr>completed := False, status := Todo\<rparr> \<and>
       length (tasks (toggleComplete 7 s)) = 1)"
  using toggleComplete_spec [of 7 "\<lparr>tasks = [\<lparr>id' = 7, text' = ''Buy milk'',
      completed = True, status = InProgress, aiAnalysis = JNull, aiSubTasks = JNull,
      isSubTasksVisible = False\<rparr>], newTaskText = Some '''', aiLoadingTaskId = None,
      breakdownLoadingTaskId = None\<rparr>"]
  by simp

text \<open>
  Claim C4.  A drop on the column \<open>newStatus\<close> of the card whose drag started on the task
  id \<open>i\<close> keeps the positions of the tasks; at every position that holds a task with that
  id it sets the status to \<open>newStatus\<close> and \<open>completed\<close> to whether \<open>newStatus\<close> is done,
  whatever \<open>completed\<close> was.
\<close>

theorem handleDrop_spec:
  "length (tasks (handleDrop (handleDragStart i) newStatus s)) = length (tasks s) \<and>
   (\<forall>k < length (tasks s). id' (tasks s ! k) = i \<longrightarrow>
      tasks (handleDrop (handleDragStart i) newStatus s) ! k =
        (tasks s ! k)\<lparr>status := newStatus, completed := (newStatus = Done)\<rparr>)"
  by (simp add: handleDrop_def handleDragStart_def parseInt_number_to_string)

theorem handleDrop_spec_witness:
  "(let t = \<lparr>id' = 7, text' = ''Buy milk'', completed = True, status = Done,
             aiAnalysis = JNull, aiSubTasks = JNull, isSubTasksVisible = False\<rparr>;
        s = \<lparr>tasks = [t], newTaskText = Some '''', aiLoadingTaskId = None,
             breakdownLoadingTaskId = None\<rparr>
    in (0::nat) < length (tasks s) \<and> id' (tasks s ! 0) = 7 \<and>
       tasks (handleDrop (handleDragStart 7) InProgress s) ! 0 =
         t\<lparr>status := InProgress, completed := False\<rparr> \<and>
       length (tasks (handleDrop (handleDragStart 7) InProgress s)) = 1)"
  using handleDrop_spec [of 7 InProgress "\<lparr>tasks = [\<lparr>id' = 7, text' = ''Buy milk'',
      completed = True, status = Done, aiAnalysis = JNull, aiSubTasks = JNull,
      isSubTasksVisible = False\<rparr>], newTaskText = Some '''', aiLoadingTaskId = None,
      breakdownLoadingTaskId = None\<rparr>"]
  by simp

section \<open>The invariant\<close>

lemma consistent_filter: "consistent ts \<Longrightarrow> consistent (filter P ts)"
  by (simp add: consistent_def list_all_iff)

lemma consistent_map:
  assumes "consistent ts"
    and "\<And>t. completed t = (status t = Done) \<Longrightarrow> completed (f t) = (status (f t) = Done)"
  shows "consistent (map f ts)"
  using assms by (auto simp: consistent_def list_all_iff)

lemma consistent_addTask:
  "consistent (tasks s) \<Longrightarrow> addTask now s = Inr s' \<Longrightarrow> consistent (tasks s')"
  by (auto simp: addTask_def consistent_def split: option.splits if_splits)

lemma consistent_deleteTask: "consistent (tasks s) \<Longrightarrow> consistent (tasks (deleteTask i s))"
  by (simp add: deleteTask_def consistent_filter)

lemma consistent_toggleComplete:
  "consistent (tasks s) \<Longrightarrow> consistent (tasks (toggleComplete i s))"
  by (simp add: toggleComplete_def consistent_map)

lemma consistent_toggleSubTasksVisibility:
  "consistent (tasks s) \<Longrightarrow> consistent (tasks (toggleSubTasksVisibility i s))"
  by (simp add: toggleSubTasksVisibility_def consistent_map)

lemma consistent_handleDrop:
  "consistent (tasks s) \<Longrightarrow> consistent (tasks (handleDrop data st s))"
  by (simp add: handleDrop_def consistent_map)

lemma consistent_setAnalysis: "consistent ts \<Longrightarrow> consistent (setAnalysis i a ts)"
  by (simp add: setAnalysis_def consistent_map)

lemma consistent_setSubTasks: "consistent ts \<Longrightarrow> consistent (setSubTasks i l ts)"
  by (simp add: setSubTasks_def consistent_map)

text \<open>
  Claim C1.  If every task of the collection is completed exactly when its status is
  done, then the same holds of the collection after \<^verbatim>\<open>addTask\<close>, \<^verbatim>\<open>deleteTask\<close>,
  \<^verbatim>\<open>toggleComplete\<close>, a drop, \<^verbatim>\<open>toggleSubTasksVisibility\<close>, and the two write-backs of the
  AI workflows, for all their arguments.
\<close>

theorem store_operations_keep_consistent:
  assumes "consistent (tasks s)"
  shows "(\<forall>now s'. addTask now s = Inr s' \<longrightarrow> consistent (tasks s')) \<and>
         (\<forall>i. consistent (tasks (deleteTask i s))) \<and>
         (\<forall>i. consistent (tasks (toggleComplete i s))) \<and>
         (\<forall>data st. consistent (tasks (handleDrop data st s))) \<and>
         (\<forall>i. consistent (tasks (toggleSubTasksVisibility i s))) \<and>
         (\<forall>i a. consistent (setAnalysis i a (tasks s))) \<and>
         (\<forall>i l. consistent (setSubTasks i l (tasks s)))"
  using assms consistent_addTask [of s]
  by (simp add: consistent_deleteTask consistent_toggleComplete consistent_handleDrop
      consistent_toggleSubTasksVisibility consistent_setAnalysis consistent_setSubTasks)

theorem store_operations_keep_consistent_witness:
  "(let t = \<lparr>id' = 7, text' = ''Buy milk'', completed = True, status = Done,
             aiAnalysis = JNull, aiSubTasks = JNull, isSubTasksVisible = False\<rparr>;
        s = \<lparr>tasks = [t], newTaskText = Some ''Walk the dog'', aiLoadingTaskId = None,
             breakdownLoadingTaskId = None\<rparr>
    in consistent (tasks s) \<and>
       addTask 8 s = Inr (s\<lparr>tasks := [t, \<lparr>id' = 8, text' = ''Walk the dog'', completed = False,
             status = Todo, aiAnalysis = JNull, aiSubTasks = JNull,
             isSubTasksVisible = False\<rparr>], newTaskText := Some ''''\<rparr>) \<and>
       consistent [t, \<lparr>id' = 8, text' = ''Walk the dog'', completed = False,
             status = Todo, aiAnalysis = JNull, aiSubTasks = JNull,
             isSubTasksVisible = False\<rparr>] \<and>
       consistent (tasks (toggleComplete 7 s)) \<and>
       consistent (tasks (handleDrop ''7'' InProgress s)))"
  using store_operations_keep_consistent [of "\<lparr>tasks = [\<lparr>id' = 7, text' = ''Buy milk'',
      completed = True, status = Done, aiAnalysis = JNull, aiSubTasks = JNull,
      isSubTasksVisible = False\<rparr>], newTaskText = Some ''Walk the dog'', aiLoadingTaskId = None,
      breakdownLoadingTaskId = None\<rparr>"]
  by (simp add: consistent_def addTask_def trim_def is_ws_def)

text \<open>
  The invariant also holds along every run from the first render, where the write-backs
  use the tasks remembered by the request.
\<close>

lemma consistent_settle:
  "(case r of Request w i captured \<Rightarrow> consistent captured) \<Longrightarrow> consistent (tasks (settle rt r f s))"
proof (cases r)
  case (Request w i captured)
  assume "case r of Request w i captured \<Rightarrow> consistent captured"
  with Request have "consistent captured" by simp
  with Request show ?thesis
    by (cases w)
      (simp_all add: analyzeTaskWithAI_settle_def breakdownTaskWithAI_settle_def
        consistent_setAnalysis consistent_setSubTasks)
qed

lemma step_consistent: "config_consistent c \<Longrightarrow> config_consistent (step rt c ev)"
proof -
  assume c: "config_consistent c"
  obtain s rs where sr: "c = (s, rs)" by (cases c)
  from c sr have s: "consistent (tasks s)"
    and rs: "list_all (\<lambda>r. case r of Request w i captured \<Rightarrow> consistent captured) rs"
    by simp_all
  show ?thesis
  proof (cases ev)
    case (Change v)
    with sr s rs show ?thesis by (simp add: handleChange_def)
  next
    case (AddTask now)
    show ?thesis
    proof (cases "addTask now s")
      case (Inl e)
      with AddTask sr s rs show ?thesis by simp
    next
      case (Inr s')
      with s have "consistent (tasks s')" by (rule consistent_addTask)
      with AddTask sr rs Inr show ?thesis by simp
    qed
  next
    case (ToggleComplete i)
    with sr s rs show ?thesis by (simp add: consistent_toggleComplete)
  next
    case (ToggleSubTasksVisibility i)
    with sr s rs show ?thesis by (simp add: consistent_toggleSubTasksVisibility)
  next
    case (DeleteTask i)
    with sr s rs show ?thesis by (simp add: consistent_deleteTask)
  next
    case (Drop data st)
    with sr s rs show ?thesis by (simp add: consistent_handleDrop)
  next
    case (AnalyzeTaskWithAI i)
    with sr s rs show ?thesis by (simp add: analyzeTaskWithAI_start_def)
  next
    case (BreakdownTaskWithAI i)
    with sr s rs show ?thesis by (simp add: breakdownTaskWithAI_start_def)
  next
    case (Settled k f)
    show ?thesis
    proof (cases "k < length rs")
      case False
      with Settled sr s rs show ?thesis by simp
    next
      case True
      with rs have "case rs ! k of Request w i captured \<Rightarrow> consistent captured"
        by (simp add: list_all_length)
      then have "consistent (tasks (settle rt (rs ! k) f s))" by (rule consistent_settle)
      moreover have "list_all (\<lambda>r. case r of Request w i captured \<Rightarrow> consistent captured)
          (take k rs @ drop (Suc k) rs)"
        using rs by (auto simp: list_all_iff dest: in_set_takeD in_set_dropD)
      ultimately show ?thesis using Settled sr True by simp
    qed
  qed
qed

lemma run_consistent: "config_consistent c \<Longrightarrow> config_consistent (run rt evs c)"
  unfolding run_def by (induction evs arbitrary: c) (simp_all add: step_consistent)

lemma reachable_consistent: "consistent (tasks (fst (run rt evs initial)))"
proof -
  have "config_consistent initial" by (simp add: initial_def consistent_def)
  then have "config_consistent (run rt evs initial)" by (rule run_consistent)
  then show ?thesis by (cases "run rt evs initial") simp
qed

section \<open>The board\<close>

lemma column_matching: "column st ts = matching_subsequence st ts"
proof -
  have "filter (\<lambda>task. status task = st) (map (\<lambda>k. ts ! k) [0..<length ts])
        = map (\<lambda>k. ts ! k) (filter (\<lambda>k. status (ts ! k) = st) [0..<length ts])"
    by (simp add: filter_map comp_def)
  then show ?thesis by (simp add: column_def matching_subsequence_def map_nth)
qed

text \<open>
  Claim C9.  The board has the three columns todo, in-progress and done, in that order;
  each column is the tasks of that status at increasing positions of the collection, a
  subsequence of the collection, and its count is its length.  For three tasks of status
  todo, done and todo the counts are 2, 0 and 1 and the todo column is the first and the
  third task, in that order.
\<close>

theorem board_spec:
  "board ts = [(Todo, length (matching_subsequence Todo ts), matching_subsequence Todo ts),
               (InProgress, length (matching_subsequence InProgress ts),
                matching_subsequence InProgress ts),
               (Done, length (matching_subsequence Done ts), matching_subsequence Done ts)] \<and>
   (\<forall>st. subseq (matching_subsequence st ts) ts) \<and>
   (status a = Todo \<and> status b = Done \<and> status c = Todo \<longrightarrow>
      board [a, b, c] = [(Todo, 2, [a, c]), (InProgress, 0, []), (Done, 1, [b])])"
proof -
  have cols: "board ts =
      [(Todo, length (column Todo ts), column Todo ts),
       (InProgress, length (column InProgress ts), column InProgress ts),
       (Done, length (column Done ts), column Done ts)]"
    by (simp add: board_def column_def)
  have sub: "\<forall>st. subseq (column st ts) ts"
    by (simp add: column_def)
  have ex: "status a = Todo \<and> status b = Done \<and> status c = Todo \<longrightarrow>
      board [a, b, c] = [(Todo, 2, [a, c]), (InProgress, 0, []), (Done, 1, [b])]"
    by (simp add: board_def column_def)
  from cols sub ex show ?thesis by (simp add: column_matching)
qed

theorem board_spec_witness:
  "(let a = \<lparr>id' = 1, text' = ''Buy milk'', completed = False, status = Todo,
             aiAnalysis = JNull, aiSubTasks = JNull, isSubTasksVisible = False\<rparr>;
        b = \<lparr>id' = 2, text' = ''Pay rent'', completed = True, status = Done,
             aiAnalysis = JNull, aiSubTasks = JNull, isSubTasksVisible = False\<rparr>;
        c = \<lparr>id' = 3, text' = ''Walk the dog'', completed = False, status = Todo,
             aiAnalysis = JNull, aiSubTasks = JNull, isSubTasksVisible = False\<rparr>
    in status a = Todo \<and> status b = Done \<and> status c = Todo \<and>
       board [a, b, c] = [(Todo, 2, [a, c]), (InProgress, 0, []), (Done, 1, [b])])"
  using board_spec [of "[]"
      "\<lparr>id' = 1, text' = ''Buy milk'', completed = False, status = Todo,
        aiAnalysis = JNull, aiSubTasks = JNull, isSubTasksVisible = False\<rparr>"
      "\<lparr>id' = 2, text' = ''Pay rent'', completed = True, status = Done,
        aiAnalysis = JNull, aiSubTasks = JNull, isSubTasksVisible = False\<rparr>"
      "\<lparr>id' = 3, text' = ''Walk the dog'', completed = False, status = Todo,
        aiAnalysis = JNull, aiSubTasks = JNull, isSubTasksVisible = False\<rparr>"]
  by simp

section \<open>The AI workflows\<close>

lemma attempt_Rejected: "attempt rt (Rejected e) = Inl e"
  by (simp add: attempt_def)

lemma attempt_not_ok:
  "\<not> ok r \<Longrightarrow>
     attempt rt (Resolved r) = Inl (Thrown (''HTTP error! status: '' @ digits (status' r)))"
  by (simp add: attempt_def)

lemma attempt_body_error:
  "ok r \<Longrightarrow> json_result r = Inl e \<Longrightarrow> attempt rt (Resolved r) = Inl e"
  by (simp add: attempt_def and_then_def)

lemma attempt_content_missing:
  "ok r \<Longrightarrow> json_result r = Inr result \<Longrightarrow> content_present rt result = Inr False
     \<Longrightarrow> attempt rt (Resolved r) = Inr None"
  by (simp add: attempt_def and_then_def)

lemma attempt_parse_error:
  "ok r \<Longrightarrow> json_result r = Inr result \<Longrightarrow> content_present rt result = Inr True
     \<Longrightarrow> candidate_text result = Inr payload \<Longrightarrow> JSON_parse rt payload = Inl e
     \<Longrightarrow> attempt rt (Resolved r) = Inl e"
  by (simp add: attempt_def and_then_def)

lemma attempt_parsed:
  "ok r \<Longrightarrow> json_result r = Inr result \<Longrightarrow> content_present rt result = Inr True
     \<Longrightarrow> candidate_text result = Inr payload \<Longrightarrow> JSON_parse rt payload = Inr parsed
     \<Longrightarrow> attempt rt (Resolved r) = Inr (Some parsed)"
  by (simp add: attempt_def and_then_def)

lemma attempt_Some_iff:
  "attempt rt f = Inr (Some parsed) \<longleftrightarrow>
     (\<exists>r result payload. f = Resolved r \<and> ok r \<and> json_result r = Inr result \<and>
        content_present rt result = Inr True \<and> candidate_text result = Inr payload \<and>
        JSON_parse rt payload = Inr parsed)"
  by (auto simp: attempt_def and_then_def split: fetched.splits sum.splits if_splits)

lemma analysis_result_cases:
  "(\<exists>parsed. attempt rt f = Inr (Some parsed) \<and> analysis_result rt f = parsed) \<or>
   (\<exists>notes. analysis_result rt f = error_analysis notes)"
  by (auto simp: analysis_result_def split: sum.splits option.splits)

lemma breakdown_result_cases:
  "(\<exists>parsed. attempt rt f = Inr (Some parsed) \<and> breakdown_result rt f = parsed) \<or>
   (\<exists>description. breakdown_result rt f = JArr [JStr description])"
  by (auto simp: breakdown_result_def split: sum.splits option.splits)

lemma nth_setAnalysis:
  "k < length ts \<Longrightarrow> setAnalysis i a ts ! k =
     (if id' (ts ! k) = i then (ts ! k)\<lparr>aiAnalysis := a\<rparr> else ts ! k)"
  by (simp add: setAnalysis_def)

lemma nth_setSubTasks:
  "k < length ts \<Longrightarrow> setSubTasks i l ts ! k =
     (if id' (ts ! k) = i then (ts ! k)\<lparr>aiSubTasks := l, isSubTasksVisible := True\<rparr>
      else ts ! k)"
  by (simp add: setSubTasks_def)

text \<open>
  Claim C5.  When the request of \<^verbatim>\<open>analyzeTaskWithAI\<close> settles, the loading marker is
  cleared and every task of the written list with the given id has its \<open>aiAnalysis\<close>
  set to one value.  That value is the parsed payload, as it is, when the response is ok,
  its body parses, the candidate text is there and parses.  It is the error record with
  the description "Analysis failed: " and the message when the request is rejected, when
  the status is not ok (the message names the status), when the body does not parse and
  when the payload does not parse; it is the error record with "Could not analyze" when
  the candidate content is missing.  In every case it is the parsed payload of the
  successful path or an error record.
\<close>

theorem analyzeTaskWithAI_spec:
  "aiLoadingTaskId (analyzeTaskWithAI_settle rt captured i f s) = None \<and>
   length (tasks (analyzeTaskWithAI_settle rt captured i f s)) = length captured \<and>
   (\<forall>k < length captured. id' (captured ! k) = i \<longrightarrow>
      tasks (analyzeTaskWithAI_settle rt captured i f s) ! k =
        (captured ! k)\<lparr>aiAnalysis := analysis_result rt f\<rparr>) \<and>
   (\<forall>r result payload parsed.
      f = Resolved r \<and> ok r \<and> json_result r = Inr result \<and>
      content_present rt result = Inr True \<and> candidate_text result = Inr payload \<and>
      JSON_parse rt payload = Inr parsed \<longrightarrow> analysis_result rt f = parsed) \<and>
   (\<forall>e. f = Rejected e \<longrightarrow>
      analysis_result rt f = error_analysis (''Analysis failed: '' @ message rt e)) \<and>
   (\<forall>r. f = Resolved r \<and> \<not> ok r \<longrightarrow>
      analysis_result rt f =
        error_analysis (''Analysis failed: HTTP error! status: '' @ digits (status' r))) \<and>
   (\<forall>r e. f = Resolved r \<and> ok r \<and> json_result r = Inl e \<longrightarrow>
      analysis_result rt f = error_analysis (''Analysis failed: '' @ message rt e)) \<and>
   (\<forall>r result. f = Resolved r \<and> ok r \<and> json_result r = Inr result \<and>
      content_present rt result = Inr False \<longrightarrow>
      analysis_result rt f = error_analysis ''Could not analyze'') \<and>
   (\<forall>r result payload e.
      f = Resolved r \<and> ok r \<and> json_result r = Inr result \<and>
      content_present rt result = Inr True \<and> candidate_text result = Inr payload \<and>
      JSON_parse rt payload = Inl e \<longrightarrow>
      analysis_result rt f = error_analysis (''Analysis failed: '' @ message rt e)) \<and>
   ((\<exists>r result payload parsed.
      f = Resolved r \<and> ok r \<and> json_result r = Inr result \<and>
      content_present rt result = Inr True \<and> candidate_text result = Inr payload \<and>
      JSON_parse rt payload = Inr parsed \<and> analysis_result rt f = parsed) \<or>
    (\<exists>notes. analysis_result rt f = error_analysis notes))"
proof -
  have marker: "aiLoadingTaskId (analyzeTaskWithAI_settle rt captured i f s) = None"
    by (simp add: analyzeTaskWithAI_settle_def)
  have len: "length (tasks (analyzeTaskWithAI_settle rt captured i f s)) = length captured"
    by (simp add: analyzeTaskWithAI_settle_def setAnalysis_def)
  have field: "\<forall>k < length captured. id' (captured ! k) = i \<longrightarrow>
      tasks (analyzeTaskWithAI_settle rt captured i f s) ! k =
        (captured ! k)\<lparr>aiAnalysis := analysis_result rt f\<rparr>"
    by (simp add: analyzeTaskWithAI_settle_def nth_setAnalysis)
  have good: "\<forall>r result payload parsed.
      f = Resolved r \<and> ok r \<and> json_result r = Inr result \<and>
      content_present rt result = Inr True \<and> candidate_text result = Inr payload \<and>
      JSON_parse rt payload = Inr parsed \<longrightarrow> analysis_result rt f = parsed"
    by (auto simp: analysis_result_def attempt_parsed)
  have rejected: "\<forall>e. f = Rejected e \<longrightarrow>
      analysis_result rt f = error_analysis (''Analysis failed: '' @ message rt e)"
    by (simp add: analysis_result_def attempt_Rejected)
  have http: "\<forall>r. f = Resolved r \<and> \<not> ok r \<longrightarrow>
      analysis_result rt f =
        error_analysis (''Analysis failed: HTTP error! status: '' @ digits (status' r))"
    by (simp add: analysis_result_def attempt_not_ok)
  have body: "\<forall>r e. f = Resolved r \<and> ok r \<and> json_result r = Inl e \<longrightarrow>
      analysis_result rt f = error_analysis (''Analysis failed: '' @ message rt e)"
    by (auto simp: analysis_result_def attempt_body_error)
  have missing: "\<forall>r result. f = Resolved r \<and> ok r \<and> json_result r = Inr result \<and>
      content_present rt result = Inr False \<longrightarrow>
      analysis_result rt f = error_analysis ''Could not analyze''"
    by (auto simp: analysis_result_def attempt_content_missing)
  have unparsable: "\<forall>r result payload e.
      f = Resolved r \<and> ok r \<and> json_result r = Inr result \<and>
      content_present rt result = Inr True \<and> candidate_text result = Inr payload \<and>
      JSON_parse rt payload = Inl e \<longrightarrow>
      analysis_result rt f = error_analysis (''Analysis failed: '' @ message rt e)"
    by (auto simp: analysis_result_def attempt_parse_error)
  have total: "(\<exists>r result payload parsed.
      f = Resolved r \<and> ok r \<and> json_result r = Inr result \<and>
      content_present rt result = Inr True \<and> candidate_text result = Inr payload \<and>
      JSON_parse rt payload = Inr parsed \<and> analysis_result rt f = parsed) \<or>
    (\<exists>notes. analysis_result rt f = error_analysis notes)"
    using analysis_result_cases [of rt f] by (auto simp: attempt_Some_iff)
  from marker len field good rejected http body missing unparsable total show ?thesis
    by (intro conjI)
qed

theorem analyzeTaskWithAI_spec_witness:
  \<open>(let rt = \<lparr>JSON_parse = (\<lambda>v.
                 if v = Some (JStr ''{"category":"Work","priority":"High","notes":"due soon"}'')
                 then Inr (JObj [(''category'', JStr ''Work''), (''priority'', JStr ''High''),
                                 (''notes'', JStr ''due soon'')])
                 else Inl (Thrown ''Unexpected token'')),
              gt_zero = (\<lambda>v. Inr False),
              read_message = (\<lambda>v k. ''Cannot read properties of null'')\<rparr>;
        result = JObj [(''candidates'', JArr [JObj [(''content'', JObj [(''parts'',
                   JArr [JObj [(''text'',
                     JStr ''{"category":"Work","priority":"High","notes":"due soon"}'')]])])]])];
        r = \<lparr>ok = True, status' = 200, json_result = Inr result\<rparr>;
        bad = \<lparr>ok = False, status' = 503, json_result = Inl (Thrown ''Unexpected token'')\<rparr>;
        t = \<lparr>id' = 7, text' = ''Buy milk'', completed = False, status = Todo,
             aiAnalysis = JNull, aiSubTasks = JNull, isSubTasksVisible = False\<rparr>;
        s = \<lparr>tasks = [t], newTaskText = Some '''', aiLoadingTaskId = Some 7,
             breakdownLoadingTaskId = None\<rparr>
    in ok r \<and> json_result r = Inr result \<and> content_present rt result = Inr True \<and>
       candidate_text result =
         Inr (Some (JStr ''{"category":"Work","priority":"High","notes":"due soon"}'')) \<and>
       (0::nat) < length [t] \<and> id' ([t] ! 0) = 7 \<and>
       tasks (analyzeTaskWithAI_settle rt [t] 7 (Resolved r) s) ! 0 =
         t\<lparr>aiAnalysis := JObj [(''category'', JStr ''Work''), (''priority'', JStr ''High''),
                               (''notes'', JStr ''due soon'')]\<rparr> \<and>
       aiLoadingTaskId (analyzeTaskWithAI_settle rt [t] 7 (Resolved r) s) = None \<and>
       \<not> ok bad \<and>
       tasks (analyzeTaskWithAI_settle rt [t] 7 (Resolved bad) s) ! 0 =
         t\<lparr>aiAnalysis := JObj [(''category'', JStr ''Error''), (''priority'', JStr ''Error''),
                (''notes'', JStr ''Analysis failed: HTTP error! status: 503'')]\<rparr>)\<close>
proof -
  let ?payload = \<open>''{"category":"Work","priority":"High","notes":"due soon"}''\<close>
  let ?rt = "\<lparr>JSON_parse = (\<lambda>v.
                 if v = Some (JStr ?payload)
                 then Inr (JObj [(''category'', JStr ''Work''), (''priority'', JStr ''High''),
                                 (''notes'', JStr ''due soon'')])
                 else Inl (Thrown ''Unexpected token'')),
              gt_zero = (\<lambda>v. Inr False),
              read_message = (\<lambda>v k. ''Cannot read properties of null'')\<rparr>"
  let ?result = "JObj [(''candidates'', JArr [JObj [(''content'', JObj [(''parts'',
                   JArr [JObj [(''text'', JStr ?payload)]])])]])]"
  let ?r = "\<lparr>ok = True, status' = 200, json_result = Inr ?result\<rparr>"
  let ?bad = "\<lparr>ok = False, status' = 503, json_result = Inl (Thrown ''Unexpected token'')\<rparr>"
  let ?t = "\<lparr>id' = 7, text' = ''Buy milk'', completed = False, status = Todo,
             aiAnalysis = JNull, aiSubTasks = JNull, isSubTasksVisible = False\<rparr>"
  let ?s = "\<lparr>tasks = [?t], newTaskText = Some '''', aiLoadingTaskId = Some 7,
             breakdownLoadingTaskId = None\<rparr>"
  have present: "content_present ?rt ?result = Inr True"
    by (simp add: content_present_def and_then_def)
  have payload: "candidate_text ?result = Inr (Some (JStr ?payload))"
    by (simp add: candidate_text_def and_then_def)
  show ?thesis
    using analyzeTaskWithAI_spec [of ?rt "[?t]" 7 "Resolved ?r" ?s]
      analyzeTaskWithAI_spec [of ?rt "[?t]" 7 "Resolved ?bad" ?s]
    by (simp add: present payload error_analysis_def digits.simps [of 503]
        digits.simps [of 50] digits.simps [of 5] digit_char_def)
qed

text \<open>
  Claim C6.  When the request of \<^verbatim>\<open>breakdownTaskWithAI\<close> settles, every task of the
  written list with the given id has its sub-tasks made visible and its \<open>aiSubTasks\<close>
  set to one value.  That value is the parsed payload, as it is, on the successful path
  (so the sequence of strings, in its order, when the payload is one).  It is a sequence
  of one string on every other path: "Breakdown failed: " and the message when the
  request is rejected, when the status is not ok, when the body does not parse and when
  the payload does not parse, and "Could not break down task." when the candidate content
  is missing.
\<close>

theorem breakdownTaskWithAI_spec:
  "breakdownLoadingTaskId (breakdownTaskWithAI_settle rt captured i f s) = None \<and>
   length (tasks (breakdownTaskWithAI_settle rt captured i f s)) = length captured \<and>
   (\<forall>k < length captured. id' (captured ! k) = i \<longrightarrow>
      tasks (breakdownTaskWithAI_settle rt captured i f s) ! k =
        (captured ! k)\<lparr>aiSubTasks := breakdown_result rt f, isSubTasksVisible := True\<rparr>) \<and>
   (\<forall>r result payload parsed.
      f = Resolved r \<and> ok r \<and> json_result r = Inr result \<and>
      content_present rt result = Inr True \<and> candidate_text result = Inr payload \<and>
      JSON_parse rt payload = Inr parsed \<longrightarrow> breakdown_result rt f = parsed) \<and>
   (\<forall>e. f = Rejected e \<longrightarrow>
      breakdown_result rt f = JArr [JStr (''Breakdown failed: '' @ message rt e)]) \<and>
   (\<forall>r. f = Resolved r \<and> \<not> ok r \<longrightarrow>
      breakdown_result rt f =
        JArr [JStr (''Breakdown failed: HTTP error! status: '' @ digits (status' r))]) \<and>
   (\<forall>r e. f = Resolved r \<and> ok r \<and> json_result r = Inl e \<longrightarrow>
      breakdown_result rt f = JArr [JStr (''Breakdown failed: '' @ message rt e)]) \<and>
   (\<forall>r result. f = Resolved r \<and> ok r \<and> json_result r = Inr result \<and>
      content_present rt result = Inr False \<longrightarrow>
      breakdown_result rt f = JArr [JStr ''Could not break down task.'']) \<and>
   (\<forall>r result payload e.
      f = Resolved r \<and> ok r \<and> json_result r = Inr result \<and>
      content_present rt result = Inr True \<and> candidate_text result = Inr payload \<and>
      JSON_parse rt payload = Inl e \<longrightarrow>
      breakdown_result rt f = JArr [JStr (''Breakdown failed: '' @ message rt e)]) \<and>
   ((\<exists>r result payload parsed.
      f = Resolved r \<and> ok r \<and> json_result r = Inr result \<and>
      content_present rt result = Inr True \<and> candidate_text result = Inr payload \<and>
      JSON_parse rt payload = Inr parsed \<and> breakdown_result rt f = parsed) \<or>
    (\<exists>description. breakdown_result rt f = JArr [JStr description]))"
proof -
  have marker: "breakdownLoadingTaskId (breakdownTaskWithAI_settle rt captured i f s) = None"
    by (simp add: breakdownTaskWithAI_settle_def)
  have len: "length (tasks (breakdownTaskWithAI_settle rt captured i f s)) = length captured"
    by (simp add: breakdownTaskWithAI_settle_def setSubTasks_def)
  have field: "\<forall>k < length captured. id' (captured ! k) = i \<longrightarrow>
      tasks (breakdownTaskWithAI_settle rt captured i f s) ! k =
        (captured ! k)\<lparr>aiSubTasks := breakdown_result rt f, isSubTasksVisible := True\<rparr>"
    by (simp add: breakdownTaskWithAI_settle_def nth_setSubTasks)
  have good: "\<forall>r result payload parsed.
      f = Resolved r \<and> ok r \<and> json_result r = Inr result \<and>
      content_present rt result = Inr True \<and> candidate_text result = Inr payload \<and>
      JSON_parse rt payload = Inr parsed \<longrightarrow> breakdown_result rt f = parsed"
    by (auto simp: breakdown_result_def attempt_parsed)
  have rejected: "\<forall>e. f = Rejected e \<longrightarrow>
      breakdown_result rt f = JArr [JStr (''Breakdown failed: '' @ message rt e)]"
    by (simp add: breakdown_result_def attempt_Rejected)
  have http: "\<forall>r. f = Resolved r \<and> \<not> ok r \<longrightarrow>
      breakdown_result rt f =
        JArr [JStr (''Breakdown failed: HTTP error! status: '' @ digits (status' r))]"
    by (simp add: breakdown_result_def attempt_not_ok)
  have body: "\<forall>r e. f = Resolved r \<and> ok r \<and> json_result r = Inl e \<longrightarrow>
      breakdown_result rt f = JArr [JStr (''Breakdown failed: '' @ message rt e)]"
    by (auto simp: breakdown_result_def attempt_body_error)
  have missing: "\<forall>r result. f = Resolved r \<and> ok r \<and> json_result r = Inr result \<and>
      content_present rt result = Inr False \<longrightarrow>
      breakdown_result rt f = JArr [JStr ''Could not break down task.'']"
    by (auto simp: breakdown_result_def attempt_content_missing)
  have unparsable: "\<forall>r result payload e.
      f = Resolved r \<and> ok r \<and> json_result r = Inr result \<and>
      content_present rt result = Inr True \<and> candidate_text result = Inr payload \<and>
      JSON_parse rt payload = Inl e \<longrightarrow>
      breakdown_result rt f = JArr [JStr (''Breakdown failed: '' @ message rt e)]"
    by (auto simp: breakdown_result_def attempt_parse_error)
  have total: "(\<exists>r result payload parsed.
      f = Resolved r \<and> ok r \<and> json_result r = Inr result \<and>
      content_present rt result = Inr True \<and> candidate_text result = Inr payload \<and>
      JSON_parse rt payload = Inr parsed \<and> breakdown_result rt f = parsed) \<or>
    (\<exists>description. breakdown_result rt f = JArr [JStr description])"
    using breakdown_result_cases [of rt f] by (auto simp: attempt_Some_iff)
  from marker len field good rejected http body missing unparsable total show ?thesis
    by (intro conjI)
qed

theorem breakdownTaskWithAI_spec_witness:
  \<open>(let rt = \<lparr>JSON_parse = (\<lambda>v.
                 if v = Some (JStr ''["Find a shop","Pay"]'')
                 then Inr (JArr [JStr ''Find a shop'', JStr ''Pay''])
                 else Inl (Thrown ''Unexpected token'')),
              gt_zero = (\<lambda>v. Inr False),
              read_message = (\<lambda>v k. ''Cannot read properties of null'')\<rparr>;
        result = JObj [(''candidates'', JArr [JObj [(''content'', JObj [(''parts'',
                   JArr [JObj [(''text'', JStr ''["Find a shop","Pay"]'')]])])]])];
        r = \<lparr>ok = True, status' = 200, json_result = Inr result\<rparr>;
        t = \<lparr>id' = 7, text' = ''Buy milk'', completed = False, status = Todo,
             aiAnalysis = JNull, aiSubTasks = JNull, isSubTasksVisible = False\<rparr>;
        s = \<lparr>tasks = [t], newTaskText = Some '''', aiLoadingTaskId = None,
             breakdownLoadingTaskId = Some 7\<rparr>
    in ok r \<and> json_result r = Inr result \<and> content_present rt result = Inr True \<and>
       candidate_text result = Inr (Some (JStr ''["Find a shop","Pay"]'')) \<and>
       (0::nat) < length [t] \<and> id' ([t] ! 0) = 7 \<and>
       tasks (breakdownTaskWithAI_settle rt [t] 7 (Resolved r) s) ! 0 =
         t\<lparr>aiSubTasks := JArr [JStr ''Find a shop'', JStr ''Pay''],
           isSubTasksVisible := True\<rparr> \<and>
       breakdownLoadingTaskId (breakdownTaskWithAI_settle rt [t] 7 (Resolved r) s) = None \<and>
       tasks (breakdownTaskWithAI_settle rt [t] 7 (Rejected (Thrown ''Failed to fetch'')) s) ! 0 =
         t\<lparr>aiSubTasks := JArr [JStr ''Breakdown failed: Failed to fetch''],
           isSubTasksVisible := True\<rparr>)\<close>
proof -
  let ?payload = \<open>''["Find a shop","Pay"]''\<close>
  let ?rt = "\<lparr>JSON_parse = (\<lambda>v.
                 if v = Some (JStr ?payload)
                 then Inr (JArr [JStr ''Find a shop'', JStr ''Pay''])
                 else Inl (Thrown ''Unexpected token'')),
              gt_zero = (\<lambda>v. Inr False),
              read_message = (\<lambda>v k. ''Cannot read properties of null'')\<rparr>"
  let ?result = "JObj [(''candidates'', JArr [JObj [(''content'', JObj [(''parts'',
                   JArr [JObj [(''text'', JStr ?payload)]])])]])]"
  let ?r = "\<lparr>ok = True, status' = 200, json_result = Inr ?result\<rparr>"
  let ?t = "\<lparr>id' = 7, text' = ''Buy milk'', completed = False, status = Todo,
             aiAnalysis = JNull, aiSubTasks = JNull, isSubTasksVisible = False\<rparr>"
  let ?s = "\<lparr>tasks = [?t], newTaskText = Some '''', aiLoadingTaskId = None,
             breakdownLoadingTaskId = Some 7\<rparr>"
  have present: "content_present ?rt ?result = Inr True"
    by (simp add: content_present_def and_then_def)
  have payload: "candidate_text ?result = Inr (Some (JStr ?payload))"
    by (simp add: candidate_text_def and_then_def)
  show ?thesis
    using breakdownTaskWithAI_spec [of ?rt "[?t]" 7 "Resolved ?r" ?s]
      breakdownTaskWithAI_spec [of ?rt "[?t]" 7 "Rejected (Thrown ''Failed to fetch'')" ?s]
    by (simp add: present payload)
qed

section \<open>What an operation leaves alone\<close>

text \<open>
  Applied to a list of tasks, every handler that takes an id changes only the tasks with
  that id, and changes nothing when no task has it.
\<close>

lemma other_tasks_unchanged:
  assumes "k < length (tasks s)" and "id' (tasks s ! k) \<noteq> i"
  shows "tasks (toggleComplete i s) ! k = tasks s ! k"
    and "tasks (toggleSubTasksVisibility i s) ! k = tasks s ! k"
    and "tasks (handleDrop (handleDragStart i) st s) ! k = tasks s ! k"
    and "setAnalysis i a (tasks s) ! k = tasks s ! k"
    and "setSubTasks i l (tasks s) ! k = tasks s ! k"
    and "tasks s ! k \<in> set (tasks (deleteTask i s))"
  using assms
  by (simp_all add: toggleComplete_def toggleSubTasksVisibility_def handleDrop_def
      handleDragStart_def parseInt_number_to_string setAnalysis_def setSubTasks_def
      deleteTask_def)

lemma map_unchanged: "\<forall>t \<in> set ts. id' t \<noteq> i \<Longrightarrow> map (\<lambda>t. if id' t = i then g t else t) ts = ts"
  by (induction ts) simp_all

lemma absent_id_unchanged:
  assumes "\<forall>t \<in> set (tasks s). id' t \<noteq> i"
  shows "deleteTask i s = s"
    and "toggleComplete i s = s"
    and "toggleSubTasksVisibility i s = s"
    and "handleDrop (handleDragStart i) st s = s"
    and "setAnalysis i a (tasks s) = tasks s"
    and "setSubTasks i l (tasks s) = tasks s"
proof -
  show "deleteTask i s = s"
    using assms by (simp add: deleteTask_def filter_id_conv)
  show "toggleComplete i s = s"
    using map_unchanged [OF assms] by (simp add: toggleComplete_def Let_def)
  show "toggleSubTasksVisibility i s = s"
    using map_unchanged [OF assms] by (simp add: toggleSubTasksVisibility_def)
  show "handleDrop (handleDragStart i) st s = s"
    using map_unchanged [OF assms]
    by (simp add: handleDrop_def handleDragStart_def parseInt_number_to_string Let_def)
  show "setAnalysis i a (tasks s) = tasks s"
    using map_unchanged [OF assms] by (simp add: setAnalysis_def)
  show "setSubTasks i l (tasks s) = tasks s"
    using map_unchanged [OF assms] by (simp add: setSubTasks_def)
qed


section \<open>Task ids\<close>

text \<open>The handlers other than \<^verbatim>\<open>addTask\<close> make no id.\<close>

lemma ids_kept:
  "map id' (tasks (toggleComplete i s)) = map id' (tasks s)"
  "map id' (tasks (toggleSubTasksVisibility i s)) = map id' (tasks s)"
  "map id' (tasks (handleDrop data st s)) = map id' (tasks s)"
  "map id' (setAnalysis i a ts) = map id' ts"
  "map id' (setSubTasks i l ts) = map id' ts"
  "map id' (tasks (deleteTask i s)) = filter (\<lambda>j. j \<noteq> i) (map id' (tasks s))"
  by (simp_all add: toggleComplete_def toggleSubTasksVisibility_def handleDrop_def
      setAnalysis_def setSubTasks_def deleteTask_def filter_map comp_def Let_def)


end
